theory Spec2Isabelle
  imports Main
begin

section \<open>AST nodes (nodes.py)\<close>

text \<open>
  The node classes of \<^verbatim>\<open>nodes.py\<close> as one datatype, one constructor per class that
  can stand in \<^verbatim>\<open>ScriptNode.statements\<close>. Every field the parser fills is a Python
  \<^verbatim>\<open>str\<close> (a token value) or a list of them.
\<close>

datatype ASTNode =
    LabelNode string
  | ReplyNode string
  | SetNode string string
  | GetIntentNode string
  | IfNode string string string
  | GotoNode string
  | ExitNode
  | IntentsNode "string list"
  | LabelDeclarationsNode "string list"
  | PauseForInputNode

datatype ScriptNode = ScriptNode (statements: "ASTNode list")

section \<open>Errors\<close>

text \<open>
  Every \<^verbatim>\<open>raise RuntimeError(...)\<close> of the interpreters is a constructor, named by what
  the message reports; \<open>IndexError\<close> is Python's own exception for a list index out of range.
\<close>

datatype error =
    UndefinedVariable string
  | UndefinedLabel string
  | UnknownNodeType
  | PossibleInfiniteLoop
  | UnregisteredExternalFunction
  | IndexError

section \<open>Runtime environment (runtime.py)\<close>

text \<open>
  Variable values are Python \<^verbatim>\<open>str\<close>: that is what a \<^verbatim>\<open>set\<close> statement stores, and
  \<^verbatim>\<open>str(v)\<close> of a \<^verbatim>\<open>str\<close> is \<open>v\<close>. The label table holds Python ints.
\<close>

record RuntimeEnvironment =
  variables :: "string \<rightharpoonup> string"
  labels :: "string \<rightharpoonup> int"
  current_line :: int
  should_exit :: bool
  last_reply :: "string option"
  defined_intents :: "string list"

definition RuntimeEnvironment_init :: RuntimeEnvironment where
  "RuntimeEnvironment_init =
     \<lparr>variables = Map.empty, labels = Map.empty, current_line = 0, should_exit = False,
      last_reply = None, defined_intents = []\<rparr>"

definition set_defined_intents :: "string list \<Rightarrow> RuntimeEnvironment \<Rightarrow> RuntimeEnvironment" where
  "set_defined_intents intents rt = rt\<lparr>defined_intents := intents\<rparr>"

definition strip_sigil :: "string \<Rightarrow> string" where
  "strip_sigil name = (case name of [] \<Rightarrow> [] | c # cs \<Rightarrow> if c = CHR ''$'' then cs else name)"

definition set_variable :: "string \<Rightarrow> string \<Rightarrow> RuntimeEnvironment \<Rightarrow> RuntimeEnvironment" where
  "set_variable name v rt = rt\<lparr>variables := (variables rt)(strip_sigil name \<mapsto> v)\<rparr>"

text \<open>\<^verbatim>\<open>get_variable(name, default)\<close>: \<open>None\<close> is Python's \<^verbatim>\<open>None\<close>, the default default.\<close>

definition get_variable :: "RuntimeEnvironment \<Rightarrow> string \<Rightarrow> string option \<Rightarrow> string option" where
  "get_variable rt name dflt =
     (case variables rt (strip_sigil name) of None \<Rightarrow> dflt | Some v \<Rightarrow> Some v)"

definition register_label :: "string \<Rightarrow> int \<Rightarrow> RuntimeEnvironment \<Rightarrow> RuntimeEnvironment" where
  "register_label label_name line_number rt = rt\<lparr>labels := (labels rt)(label_name \<mapsto> line_number)\<rparr>"

definition jump_to_label_rt :: "string \<Rightarrow> RuntimeEnvironment \<Rightarrow> bool \<times> RuntimeEnvironment" where
  "jump_to_label_rt label_name rt =
     (case labels rt label_name of
        Some l \<Rightarrow> (True, rt\<lparr>current_line := l\<rparr>)
      | None \<Rightarrow> (False, rt))"

definition set_reply :: "string \<Rightarrow> RuntimeEnvironment \<Rightarrow> RuntimeEnvironment" where
  "set_reply message rt = rt\<lparr>last_reply := Some message\<rparr>"

definition get_reply :: "RuntimeEnvironment \<Rightarrow> string option \<times> RuntimeEnvironment" where
  "get_reply rt = (last_reply rt, rt\<lparr>last_reply := None\<rparr>)"

definition reset :: "RuntimeEnvironment \<Rightarrow> RuntimeEnvironment" where
  "reset rt = rt\<lparr>variables := Map.empty, labels := Map.empty, current_line := 0,
                 should_exit := False, last_reply := None\<rparr>"

section \<open>Python helpers\<close>

text \<open>\<^verbatim>\<open>xs[i]\<close> for a Python list: an index below 0 is taken from the end, and an index
  outside both ranges raises.\<close>

definition py_index :: "'a list \<Rightarrow> int \<Rightarrow> 'a option" where
  "py_index xs i =
     (if 0 \<le> i \<and> i < int (length xs) then Some (xs ! nat i)
      else if i < 0 \<and> - int (length xs) \<le> i then Some (xs ! nat (int (length xs) + i))
      else None)"

text \<open>\<^verbatim>\<open>str(v)\<close> for a value that is a \<^verbatim>\<open>str\<close> or \<^verbatim>\<open>None\<close>.\<close>

definition py_str :: "string option \<Rightarrow> string" where
  "py_str v = (case v of None \<Rightarrow> ''None'' | Some s \<Rightarrow> s)"

text \<open>Truthiness of an \<^verbatim>\<open>Optional[str]\<close>: neither \<^verbatim>\<open>None\<close> nor the empty string.\<close>

definition truthy :: "string option \<Rightarrow> bool" where
  "truthy v = (case v of None \<Rightarrow> False | Some s \<Rightarrow> s \<noteq> [])"

text \<open>
  The character classes of the pattern \<^verbatim>\<open>[a-zA-Z_][a-zA-Z0-9_]*\<close>, by character code:
  \<open>a\<close>-\<open>z\<close> is 97-122, \<open>A\<close>-\<open>Z\<close> is 65-90, \<open>_\<close> is 95, \<open>0\<close>-\<open>9\<close> is 48-57.
\<close>

definition is_ident_start :: "char \<Rightarrow> bool" where
  "is_ident_start c =
     (let n = (of_char c :: nat) in (97 \<le> n \<and> n \<le> 122) \<or> (65 \<le> n \<and> n \<le> 90) \<or> n = 95)"

definition is_ident_char :: "char \<Rightarrow> bool" where
  "is_ident_char c =
     (let n = (of_char c :: nat) in
        (97 \<le> n \<and> n \<le> 122) \<or> (65 \<le> n \<and> n \<le> 90) \<or> (48 \<le> n \<and> n \<le> 57) \<or> n = 95)"

text \<open>
  \<^verbatim>\<open>re.finditer(r'\$[a-zA-Z_][a-zA-Z0-9_]*', text)\<close>: the non-overlapping matches from
  left to right, each the sigil and the longest run of identifier characters after it;
  the scan goes on behind a match, and one character further where none starts.
\<close>

function variable_matches :: "string \<Rightarrow> string list" where
  "variable_matches [] = []"
| "variable_matches (c # cs) =
     (if c = CHR ''$'' \<and> cs \<noteq> [] \<and> is_ident_start (hd cs)
      then (c # takeWhile is_ident_char cs) # variable_matches (dropWhile is_ident_char cs)
      else variable_matches cs)"
  by pat_completeness auto
termination
  by (relation "measure length") (auto simp: length_dropWhile_le less_Suc_eq_le)

text \<open>
  \<^verbatim>\<open>s.replace(old, new)\<close>: every non-overlapping occurrence of \<open>old\<close>, found from the
  left, is replaced; the text put in is not scanned again. For an empty \<open>old\<close> Python puts
  \<open>new\<close> before every character and at the end.
\<close>

function str_replace :: "string \<Rightarrow> string \<Rightarrow> string \<Rightarrow> string" where
  "str_replace old new s =
     (if old = [] then new @ concat (map (\<lambda>c. c # new) s)
      else if s = [] then []
      else if take (length old) s = old then new @ str_replace old new (drop (length old) s)
      else hd s # str_replace old new (tl s))"
  by pat_completeness auto
termination
  by (relation "measure (\<lambda>(old, new, s). length s)") auto

section \<open>The stepping interpreter (better\_interpreter.py)\<close>

text \<open>
  The registered external functions are looked up by name only; a hook takes the input
  text and the candidate intents.
\<close>

type_synonym hook = "string \<Rightarrow> string list \<Rightarrow> string"

record Interpreter =
  runtime :: RuntimeEnvironment
  external_functions :: "string \<rightharpoonup> hook"
  has_jumped :: bool
  label_cache :: "string \<rightharpoonup> int"
  pending_gotos :: "string \<rightharpoonup> int list"
  resolved_gotos :: "string set"
  label_statements_processed :: "int set"
  execution_paused :: bool
  pause_reason :: "string option"
  pending_replies :: "string list"

definition Interpreter_init :: "RuntimeEnvironment \<Rightarrow> Interpreter" where
  "Interpreter_init rt =
     \<lparr>runtime = rt, external_functions = Map.empty, has_jumped = False,
      label_cache = Map.empty, pending_gotos = Map.empty, resolved_gotos = {},
      label_statements_processed = {}, execution_paused = False, pause_reason = None,
      pending_replies = []\<rparr>"

definition register_function :: "string \<Rightarrow> hook \<Rightarrow> Interpreter \<Rightarrow> Interpreter" where
  "register_function name func s = s\<lparr>external_functions := (external_functions s)(name \<mapsto> func)\<rparr>"

definition predeclare_label :: "string \<Rightarrow> Interpreter \<Rightarrow> Interpreter" where
  "predeclare_label label_name s = s\<lparr>label_cache := (label_cache s)(label_name \<mapsto> - 1)\<rparr>"

definition define_label :: "string \<Rightarrow> int \<Rightarrow> Interpreter \<Rightarrow> Interpreter" where
  "define_label label_name line_number s =
     (if label_cache s label_name = Some line_number then s
      else
        let s1 = s\<lparr>label_cache := (label_cache s)(label_name \<mapsto> line_number)\<rparr>
        in if pending_gotos s1 label_name \<noteq> None
           then s1\<lparr>resolved_gotos := insert label_name (resolved_gotos s1),
                   pending_gotos := (pending_gotos s1)(label_name := None)\<rparr>
           else s1)"

text \<open>
  \<^verbatim>\<open>_jump_to_label\<close>. A function that can raise returns the error or its value together
  with the interpreter as the raise or the return leaves it: nothing is rolled back.
\<close>

definition jump_to_label :: "string \<Rightarrow> int \<Rightarrow> Interpreter \<Rightarrow> (error + unit) \<times> Interpreter" where
  "jump_to_label label_name cur s =
     (case label_cache s label_name of
        Some target_line \<Rightarrow>
          if target_line \<noteq> - 1 then
            let target_line' =
                  (if target_line \<in> label_statements_processed s then target_line + 1
                   else target_line)
            in (Inr (), s\<lparr>runtime := (runtime s)\<lparr>current_line := target_line'\<rparr>,
                          has_jumped := True\<rparr>)
          else
            (Inr (), s\<lparr>pending_gotos := (pending_gotos s)
                 (label_name \<mapsto> (case pending_gotos s label_name of None \<Rightarrow> [] | Some l \<Rightarrow> l) @ [cur])\<rparr>)
      | None \<Rightarrow> (Inl (UndefinedLabel label_name), s))"

text \<open>
  \<^verbatim>\<open>_resolve_variables_in_string\<close>, the same text in both interpreters; of \<^verbatim>\<open>self\<close> it
  reads the runtime environment only. The loop runs over the matches found in the
  template as it was given; each round replaces in the result built so far.
\<close>

definition resolve_variables_in_string :: "RuntimeEnvironment \<Rightarrow> string \<Rightarrow> string" where
  "resolve_variables_in_string rt text =
     fold (\<lambda>var_name result.
             str_replace var_name (py_str (get_variable rt var_name (Some []))) result)
          (variable_matches text) text"

text \<open>
  \<^verbatim>\<open>_execute_node\<close>: the two flags are reset first, then the \<^verbatim>\<open>isinstance\<close> chain in
  the order of the source. The result is the returned reply message (\<open>None\<close> when the
  source returns \<^verbatim>\<open>None\<close>) or the error raised.
\<close>

definition execute_node :: "ASTNode \<Rightarrow> int \<Rightarrow> Interpreter \<Rightarrow> (error + string option) \<times> Interpreter" where
  "execute_node node cur s0 =
     (let s = s0\<lparr>has_jumped := False, execution_paused := False\<rparr> in
      case node of
        LabelDeclarationsNode label_names \<Rightarrow>
          (Inr None, fold predeclare_label label_names s)
      | IntentsNode intent_names \<Rightarrow>
          (Inr None, s\<lparr>runtime := set_defined_intents intent_names (runtime s)\<rparr>)
      | LabelNode name \<Rightarrow>
          (let s1 = (if label_cache s name = None \<or> label_cache s name = Some (- 1)
                     then define_label name cur s else s)
           in (Inr None,
               s1\<lparr>label_statements_processed := insert cur (label_statements_processed s1)\<rparr>))
      | ReplyNode message_template \<Rightarrow>
          (Inr (Some (resolve_variables_in_string (runtime s) message_template)),
           s\<lparr>execution_paused := True, pause_reason := Some ''reply''\<rparr>)
      | SetNode var_name v \<Rightarrow>
          (if v \<noteq> [] \<and> hd v = CHR ''$'' then
             (case get_variable (runtime s) v None of
                None \<Rightarrow> (Inl (UndefinedVariable v), s)
              | Some actual_value \<Rightarrow>
                  (Inr None, s\<lparr>runtime := set_variable var_name actual_value (runtime s)\<rparr>))
           else (Inr None, s\<lparr>runtime := set_variable var_name v (runtime s)\<rparr>))
      | GetIntentNode var_name \<Rightarrow>
          (Inr None, s\<lparr>execution_paused := True, pause_reason := Some ''get_intent''\<rparr>)
      | IfNode var_name compare_value target_label \<Rightarrow>
          (if get_variable (runtime s) var_name (Some []) = Some compare_value then
             (case jump_to_label target_label cur s of
                (Inl e, s') \<Rightarrow> (Inl e, s')
              | (Inr u, s') \<Rightarrow> (Inr None, s'))
           else (Inr None, s))
      | GotoNode target_label \<Rightarrow>
          (case jump_to_label target_label cur s of
             (Inl e, s') \<Rightarrow> (Inl e, s')
           | (Inr u, s') \<Rightarrow> (Inr None, s'))
      | ExitNode \<Rightarrow> (Inr None, s\<lparr>runtime := (runtime s)\<lparr>should_exit := True\<rparr>\<rparr>)
      | PauseForInputNode \<Rightarrow> (Inl UnknownNodeType, s))"

text \<open>
  \<^verbatim>\<open>execute_script_step\<close>: past the end nothing is executed; otherwise the node at the
  program counter is executed and the counter is incremented unless the node jumped.
  When \<^verbatim>\<open>_execute_node\<close> raises, the increment is not reached.
\<close>

definition execute_script_step :: "ScriptNode \<Rightarrow> Interpreter \<Rightarrow> (error + string option) \<times> Interpreter" where
  "execute_script_step script s =
     (if current_line (runtime s) \<ge> int (length (statements script)) then (Inr None, s)
      else
        case py_index (statements script) (current_line (runtime s)) of
          None \<Rightarrow> (Inl IndexError, s)
        | Some node \<Rightarrow>
            (case execute_node node (current_line (runtime s)) s of
               (Inl e, s') \<Rightarrow> (Inl e, s')
             | (Inr result, s') \<Rightarrow>
                 (Inr result,
                  if \<not> has_jumped s'
                  then s'\<lparr>runtime := (runtime s')\<lparr>current_line := current_line (runtime s') + 1\<rparr>\<rparr>
                  else s')))"

definition is_execution_paused :: "Interpreter \<Rightarrow> bool" where
  "is_execution_paused s = execution_paused s"

definition get_pause_reason :: "Interpreter \<Rightarrow> string option" where
  "get_pause_reason s = pause_reason s"

definition resume_execution :: "Interpreter \<Rightarrow> Interpreter" where
  "resume_execution s = s\<lparr>execution_paused := False, pause_reason := None\<rparr>"

subsection \<open>The full run: prescan and capped loop\<close>

text \<open>
  \<^verbatim>\<open>_scan_labels\<close>: the cache is cleared, then every \<^verbatim>\<open>LabelNode\<close> is defined at its
  index (\<^verbatim>\<open>enumerate\<close> counts from 0).
\<close>

fun scan_from :: "int \<Rightarrow> ASTNode list \<Rightarrow> Interpreter \<Rightarrow> Interpreter" where
  "scan_from line_num [] s = s"
| "scan_from line_num (node # nodes) s =
     scan_from (line_num + 1) nodes
       (case node of LabelNode name \<Rightarrow> define_label name line_num s | _ \<Rightarrow> s)"

definition scan_labels :: "ScriptNode \<Rightarrow> Interpreter \<Rightarrow> Interpreter" where
  "scan_labels script s = scan_from 0 (statements script) (s\<lparr>label_cache := Map.empty\<rparr>)"

definition max_iterations :: nat where
  "max_iterations = 1000"

text \<open>
  The \<^verbatim>\<open>while\<close> loop of \<^verbatim>\<open>_execute_script_phase2\<close> with its counter, and the check
  behind it. The loop ignores the pause flag. It ends because the counter grows up to
  \<open>max_iterations\<close>.
\<close>

function phase2_loop ::
  "ScriptNode \<Rightarrow> string list \<Rightarrow> nat \<Rightarrow> Interpreter \<Rightarrow> (error + string list) \<times> Interpreter" where
  "phase2_loop script replies iteration_count s =
     (if current_line (runtime s) < int (length (statements script)) \<and>
         \<not> should_exit (runtime s) \<and> iteration_count < max_iterations
      then
        (case py_index (statements script) (current_line (runtime s)) of
           None \<Rightarrow> (Inl IndexError, s)
         | Some node \<Rightarrow>
             (case execute_node node (current_line (runtime s)) s of
                (Inl e, s') \<Rightarrow> (Inl e, s')
              | (Inr result, s') \<Rightarrow>
                  phase2_loop script
                    (if truthy result then replies @ [py_str result] else replies)
                    (iteration_count + 1)
                    (if \<not> has_jumped s'
                     then s'\<lparr>runtime := (runtime s')\<lparr>current_line := current_line (runtime s') + 1\<rparr>\<rparr>
                     else s'\<lparr>has_jumped := False\<rparr>)))
      else if iteration_count \<ge> max_iterations then (Inl PossibleInfiniteLoop, s)
      else (Inr replies, s))"
  by pat_completeness auto
termination
  by (relation "measure (\<lambda>(script, replies, iteration_count, s). max_iterations - iteration_count)")
     auto

definition execute_script_phase2 ::
  "ScriptNode \<Rightarrow> string list \<Rightarrow> Interpreter \<Rightarrow> (error + string list) \<times> Interpreter" where
  "execute_script_phase2 script replies s =
     phase2_loop script replies 0
       (s\<lparr>runtime := (runtime s)\<lparr>current_line := 0, should_exit := False\<rparr>\<rparr>)"

definition execute_script :: "ScriptNode \<Rightarrow> Interpreter \<Rightarrow> (error + string list) \<times> Interpreter" where
  "execute_script script s = execute_script_phase2 script [] (scan_labels script s)"

section \<open>The turn of the controller (main\_controller.py)\<close>

text \<open>
  \<^verbatim>\<open>DSLController._execute_script\<close> drives the interpreter one step at a time from the
  current program counter and stops at a pause. The loop has no counter and may run
  forever, so the model takes fuel: \<open>None\<close> is a loop still running when the fuel is
  used up. The \<^verbatim>\<open>except\<close> branch, which returns one fixed apology line in place of the
  replies, is the result \<open>Inl\<close> of the error caught. The conversation history and the
  printing are left out.
\<close>

fun turn_loop ::
  "nat \<Rightarrow> ScriptNode \<Rightarrow> string list \<Rightarrow> Interpreter \<Rightarrow> ((error + string list) \<times> Interpreter) option" where
  "turn_loop 0 script replies s = None"
| "turn_loop (Suc fuel) script replies s =
     (if current_line (runtime s) < int (length (statements script)) \<and> \<not> should_exit (runtime s)
      then
        (case execute_script_step script s of
           (Inl e, s') \<Rightarrow> Some (Inl e, s')
         | (Inr result, s') \<Rightarrow>
             (let replies' = (if truthy result then replies @ [py_str result] else replies)
              in if is_execution_paused s' then Some (Inr replies', s')
                 else turn_loop fuel script replies' s'))
      else Some (Inr replies, s))"

definition controller_execute_script ::
  "nat \<Rightarrow> ScriptNode \<Rightarrow> Interpreter \<Rightarrow> ((error + string list) \<times> Interpreter) option" where
  "controller_execute_script fuel script s = turn_loop fuel script [] (resume_execution s)"

section \<open>The first interpreter (interpreter.py)\<close>

record Interpreter_1 =
  runtime_1 :: RuntimeEnvironment
  external_functions_1 :: "string \<rightharpoonup> hook"
  has_jumped_1 :: bool

definition Interpreter_1_init :: "RuntimeEnvironment \<Rightarrow> Interpreter_1" where
  "Interpreter_1_init rt = \<lparr>runtime_1 = rt, external_functions_1 = Map.empty, has_jumped_1 = False\<rparr>"

definition get_defined_intents :: "RuntimeEnvironment \<Rightarrow> string list" where
  "get_defined_intents rt = defined_intents rt"

text \<open>\<^verbatim>\<open>_build_label_index\<close>: the label table of the runtime, from the \<^verbatim>\<open>LabelNode\<close>s.\<close>

fun index_from :: "int \<Rightarrow> ASTNode list \<Rightarrow> RuntimeEnvironment \<Rightarrow> RuntimeEnvironment" where
  "index_from line_number [] rt = rt"
| "index_from line_number (node # nodes) rt =
     index_from (line_number + 1) nodes
       (case node of LabelNode name \<Rightarrow> register_label name line_number rt | _ \<Rightarrow> rt)"

definition build_label_index :: "ScriptNode \<Rightarrow> Interpreter_1 \<Rightarrow> Interpreter_1" where
  "build_label_index script s =
     s\<lparr>runtime_1 := index_from 0 (statements script) ((runtime_1 s)\<lparr>labels := Map.empty\<rparr>)\<rparr>"

text \<open>
  The jump of \<^verbatim>\<open>IfNode\<close> and \<^verbatim>\<open>GotoNode\<close> in \<^verbatim>\<open>interpreter.py\<close>:
  \<^verbatim>\<open>runtime.jump_to_label\<close>, then the flag or the raise.
\<close>

definition jump_1 :: "string \<Rightarrow> Interpreter_1 \<Rightarrow> (error + unit) \<times> Interpreter_1" where
  "jump_1 target_label s =
     (case jump_to_label_rt target_label (runtime_1 s) of
        (True, rt') \<Rightarrow> (Inr (), s\<lparr>runtime_1 := rt', has_jumped_1 := True\<rparr>)
      | (False, rt') \<Rightarrow> (Inl (UndefinedLabel target_label), s\<lparr>runtime_1 := rt'\<rparr>))"

text \<open>
  \<^verbatim>\<open>_execute_node\<close> of \<^verbatim>\<open>interpreter.py\<close>, which returns nothing. The second
  \<^verbatim>\<open>GetIntentNode\<close> branch of the source is never reached and has no counterpart; a
  \<^verbatim>\<open>LabelDeclarationsNode\<close> reaches the final \<^verbatim>\<open>else\<close>.
\<close>

definition execute_node_1 :: "ASTNode \<Rightarrow> Interpreter_1 \<Rightarrow> (error + unit) \<times> Interpreter_1" where
  "execute_node_1 node s0 =
     (let s = s0\<lparr>has_jumped_1 := False\<rparr> in
      case node of
        LabelNode name \<Rightarrow> (Inr (), s)
      | IntentsNode intent_names \<Rightarrow> (Inr (), s)
      | GetIntentNode var_name \<Rightarrow>
          (case external_functions_1 s ''get_intent'' of
             Some f \<Rightarrow>
               (let input_text = py_str (get_variable (runtime_1 s) var_name (Some []));
                    intents = get_defined_intents (runtime_1 s);
                    intent = f input_text intents
                in (Inr (), s\<lparr>runtime_1 := set_variable ''intent'' intent (runtime_1 s)\<rparr>))
           | None \<Rightarrow> (Inl UnregisteredExternalFunction, s))
      | ReplyNode message_template \<Rightarrow>
          (Inr (), s\<lparr>runtime_1 :=
                      set_reply (resolve_variables_in_string (runtime_1 s) message_template)
                        (runtime_1 s)\<rparr>)
      | SetNode var_name v \<Rightarrow>
          (if v \<noteq> [] \<and> hd v = CHR ''$'' then
             (case get_variable (runtime_1 s) v None of
                None \<Rightarrow> (Inl (UndefinedVariable v), s)
              | Some actual_value \<Rightarrow>
                  (Inr (), s\<lparr>runtime_1 := set_variable var_name actual_value (runtime_1 s)\<rparr>))
           else (Inr (), s\<lparr>runtime_1 := set_variable var_name v (runtime_1 s)\<rparr>))
      | IfNode var_name compare_value target_label \<Rightarrow>
          (if get_variable (runtime_1 s) var_name (Some []) = Some compare_value
           then jump_1 target_label s
           else (Inr (), s))
      | GotoNode target_label \<Rightarrow> jump_1 target_label s
      | ExitNode \<Rightarrow> (Inr (), s\<lparr>runtime_1 := (runtime_1 s)\<lparr>should_exit := True\<rparr>\<rparr>)
      | LabelDeclarationsNode label_names \<Rightarrow> (Inl UnknownNodeType, s)
      | PauseForInputNode \<Rightarrow> (Inl UnknownNodeType, s))"

section \<open>Labels of a script and states of a session\<close>

text \<open>The label names a script declares (\<^verbatim>\<open>labels {...}\<close>) or defines (\<^verbatim>\<open>name:\<close>).\<close>

fun node_label_names :: "ASTNode \<Rightarrow> string set" where
  "node_label_names (LabelNode name) = {name}"
| "node_label_names (LabelDeclarationsNode label_names) = set label_names"
| "node_label_names _ = {}"

definition script_label_names :: "ScriptNode \<Rightarrow> string set" where
  "script_label_names script = (\<Union>node \<in> set (statements script). node_label_names node)"

text \<open>
  The states an interpreter can be in while it serves one script: it is created, and
  then its methods are called in any order, and the caller may write the runtime
  environment (variables, program counter, \<^verbatim>\<open>reset\<close>) at any time.
\<close>

inductive session_state :: "ScriptNode \<Rightarrow> Interpreter \<Rightarrow> bool" for script :: ScriptNode where
  created: "session_state script (Interpreter_init rt)"
| stepped: "session_state script s \<Longrightarrow> session_state script (snd (execute_script_step script s))"
| scanned: "session_state script s \<Longrightarrow> session_state script (scan_labels script s)"
| run: "session_state script s \<Longrightarrow> session_state script (snd (execute_script script s))"
| resumed: "session_state script s \<Longrightarrow> session_state script (resume_execution s)"
| registered: "session_state script s \<Longrightarrow> session_state script (register_function name f s)"
| written: "session_state script s \<Longrightarrow> session_state script (s\<lparr>runtime := rt\<rparr>)"

section \<open>Interpolation as the specification words it\<close>

text \<open>
  The specification's interpolation, for comparison with \<open>resolve_variables_in_string\<close>:
  one pass over the template from left to right, in which a sigil followed by an
  identifier is replaced by the variable's value (the empty string if unset) and the
  value put in is not looked at again.
\<close>

function interpolate_single_pass :: "RuntimeEnvironment \<Rightarrow> string \<Rightarrow> string" where
  "interpolate_single_pass rt [] = []"
| "interpolate_single_pass rt (c # cs) =
     (if c = CHR ''$'' \<and> cs \<noteq> [] \<and> is_ident_start (hd cs)
      then py_str (get_variable rt (c # takeWhile is_ident_char cs) (Some []))
             @ interpolate_single_pass rt (dropWhile is_ident_char cs)
      else c # interpolate_single_pass rt cs)"
  by pat_completeness auto
termination
  by (relation "measure (\<lambda>(rt, s). length s)") (auto simp: length_dropWhile_le less_Suc_eq_le)

section \<open>The list of declared intents as an object\<close>

text \<open>
  Python lists are objects: \<^verbatim>\<open>self.defined_intents\<close> names one, a caller that holds the
  same reference can change it in place, and \<^verbatim>\<open>.copy()\<close> makes a new object with the
  same elements. For the question of who shares the list, the runtime environment is
  modelled once more with that field as a reference into a store of list objects. The
  store hands out addresses in order; \<open>next_ref\<close> is the first one not in use.
\<close>

type_synonym ref = nat

record store =
  cells :: "ref \<Rightarrow> string list"
  next_ref :: ref

record RuntimeEnvironment_obj =
  variables_obj :: "string \<rightharpoonup> string"
  labels_obj :: "string \<rightharpoonup> int"
  current_line_obj :: int
  should_exit_obj :: bool
  last_reply_obj :: "string option"
  defined_intents_obj :: ref

text \<open>What the environment holds, read through the store.\<close>

definition env_of :: "store \<Rightarrow> RuntimeEnvironment_obj \<Rightarrow> RuntimeEnvironment" where
  "env_of h e =
     \<lparr>variables = variables_obj e, labels = labels_obj e, current_line = current_line_obj e,
      should_exit = should_exit_obj e, last_reply = last_reply_obj e,
      defined_intents = cells h (defined_intents_obj e)\<rparr>"

text \<open>\<^verbatim>\<open>xs.copy()\<close>: a new list object with the elements of \<open>xs\<close>.\<close>

definition list_copy :: "ref \<Rightarrow> store \<Rightarrow> ref \<times> store" where
  "list_copy r h = (next_ref h, \<lparr>cells = (cells h)(next_ref h := cells h r), next_ref = next_ref h + 1\<rparr>)"

text \<open>Any change of a list in place (\<^verbatim>\<open>append\<close>, \<^verbatim>\<open>clear\<close>, item assignment, ...) leaves some
  new contents at the same address.\<close>

definition list_assign :: "ref \<Rightarrow> string list \<Rightarrow> store \<Rightarrow> store" where
  "list_assign r ys h = h\<lparr>cells := (cells h)(r := ys)\<rparr>"

text \<open>\<^verbatim>\<open>set_defined_intents\<close> keeps the caller's list object; \<^verbatim>\<open>get_defined_intents\<close>
  returns a copy.\<close>

definition set_defined_intents_obj :: "ref \<Rightarrow> RuntimeEnvironment_obj \<Rightarrow> RuntimeEnvironment_obj" where
  "set_defined_intents_obj intents e = e\<lparr>defined_intents_obj := intents\<rparr>"

definition get_defined_intents_obj ::
  "RuntimeEnvironment_obj \<Rightarrow> store \<Rightarrow> ref \<times> RuntimeEnvironment_obj \<times> store" where
  "get_defined_intents_obj e h =
     (case list_copy (defined_intents_obj e) h of (r, h') \<Rightarrow> (r, e, h'))"

section \<open>The tokenizer (lexer.py)\<close>

text \<open>The constants of \<^verbatim>\<open>TokenType\<close>, each with the prefix \<open>T_\<close>.\<close>

datatype TokenType =
    T_REPLY | T_SET | T_GET_INTENT | T_IF | T_THEN | T_GOTO | T_EXIT | T_EQUALS | T_STRING | T_VARIABLE
  | T_LABEL | T_LABELS | T_COLON | T_NEWLINE | T_EOF | T_INTENTS | T_LBRACE | T_RBRACE | T_COMMA
  | T_PAUSE_FOR_INPUT

record Token =
  tok_type :: TokenType
  tok_value :: string
  tok_line :: nat
  tok_column :: nat

text \<open>The \<^verbatim>\<open>SyntaxError\<close> of the tokenizer: line, column and the character not recognised.\<close>

datatype lex_error = LexError nat nat char

text \<open>
  The patterns of \<^verbatim>\<open>token_specs\<close>, each as the function from the text at the current
  position to the text matched there. A keyword or punctuation pattern matches its own
  characters.
\<close>

definition match_literal :: "string \<Rightarrow> string \<Rightarrow> string option" where
  "match_literal lit src = (if take (length lit) src = lit then Some lit else None)"

text \<open>
  \<^verbatim>\<open>\"[^\"]*\"\<close>: a quote, the longest run of characters other than a quote, a quote.
  The class excludes the quote only. Where no closing quote follows, backing off to a
  shorter run does not help (the next character is then not a quote), so there is no match.
\<close>

definition match_string_literal :: "string \<Rightarrow> string option" where
  "match_string_literal src =
     (case src of
        [] \<Rightarrow> None
      | c # cs \<Rightarrow>
          if c = CHR 0x22 \<and> dropWhile (\<lambda>x. x \<noteq> CHR 0x22) cs \<noteq> []
          then Some (c # takeWhile (\<lambda>x. x \<noteq> CHR 0x22) cs @ [CHR 0x22])
          else None)"

text \<open>\<^verbatim>\<open>\$[a-zA-Z_][a-zA-Z0-9_]*\<close>\<close>

definition match_variable :: "string \<Rightarrow> string option" where
  "match_variable src =
     (case src of
        [] \<Rightarrow> None
      | c # cs \<Rightarrow>
          if c = CHR ''$'' \<and> cs \<noteq> [] \<and> is_ident_start (hd cs)
          then Some (c # takeWhile is_ident_char cs)
          else None)"

text \<open>\<^verbatim>\<open>[a-zA-Z_][a-zA-Z0-9_]*:\<close>: the longest identifier, then a colon; again a
  shorter identifier is followed by an identifier character, not by the colon.\<close>

definition match_label :: "string \<Rightarrow> string option" where
  "match_label src =
     (if src \<noteq> [] \<and> is_ident_start (hd src) \<and>
         dropWhile is_ident_char src \<noteq> [] \<and> hd (dropWhile is_ident_char src) = CHR '':''
      then Some (takeWhile is_ident_char src @ '':'')
      else None)"

text \<open>
  The compiled pattern is the alternation of the patterns in the order of the list,
  without \<^verbatim>\<open>SKIP\<close> and \<^verbatim>\<open>COMMENT\<close>; the regular expression engine takes the first
  alternative that matches, and \<^verbatim>\<open>lastgroup\<close> is its name.
\<close>

definition token_specs :: "(TokenType \<times> (string \<Rightarrow> string option)) list" where
  "token_specs =
     [(T_INTENTS, match_literal ''intents''),
      (T_LABELS, match_literal ''labels''),
      (T_REPLY, match_literal ''reply''),
      (T_SET, match_literal ''set''),
      (T_GET_INTENT, match_literal ''get_intent''),
      (T_PAUSE_FOR_INPUT, match_literal ''pause_for_user_input''),
      (T_IF, match_literal ''if''),
      (T_THEN, match_literal ''then''),
      (T_GOTO, match_literal ''goto''),
      (T_EQUALS, match_literal ''==''),
      (T_LBRACE, match_literal ''{''),
      (T_RBRACE, match_literal ''}''),
      (T_COMMA, match_literal '',''),
      (T_STRING, match_string_literal),
      (T_VARIABLE, match_variable),
      (T_LABEL, match_label),
      (T_COLON, match_literal '':''),
      (T_NEWLINE, match_literal [CHR 0x0A]),
      (T_EXIT, match_literal ''exit'')]"

fun first_match :: "(TokenType \<times> (string \<Rightarrow> string option)) list \<Rightarrow> string \<Rightarrow> (TokenType \<times> string) option" where
  "first_match [] src = None"
| "first_match ((token_type, m) # specs) src =
     (case m src of Some text \<Rightarrow> Some (token_type, text) | None \<Rightarrow> first_match specs src)"

definition pattern_match :: "string \<Rightarrow> (TokenType \<times> string) option" where
  "pattern_match src = first_match token_specs src"

text \<open>
  The value of a token: \<^verbatim>\<open>token_value[1:-1]\<close> for a string, \<^verbatim>\<open>token_value[:-1]\<close>
  for a label, the matched characters otherwise.
\<close>

definition token_value_of :: "TokenType \<Rightarrow> string \<Rightarrow> string" where
  "token_value_of token_type matched =
     (if token_type = T_STRING then butlast (tl matched)
      else if token_type = T_LABEL then butlast matched
      else matched)"

text \<open>
  The loop of \<^verbatim>\<open>tokenize\<close> over the rest of the source from \<^verbatim>\<open>self.position\<close> on.
  Blanks and tabs are skipped one at a time, a comment up to the newline (which stays);
  otherwise the pattern is matched at the position. The line grows at a \<^verbatim>\<open>NEWLINE\<close>
  token only, and the column by the length of the value. Lengths count the characters
  of \<open>string\<close>.
\<close>

function tokenize_loop :: "string \<Rightarrow> nat \<Rightarrow> nat \<Rightarrow> Token list \<Rightarrow> lex_error + Token list" where
  "tokenize_loop [] line column tokens =
     Inr (tokens @ [\<lparr>tok_type = T_EOF, tok_value = [], tok_line = line, tok_column = column\<rparr>])"
| "tokenize_loop (c # cs) line column tokens =
     (if c = CHR '' '' \<or> c = CHR 0x09 then tokenize_loop cs line column tokens
      else if c = CHR ''#'' then
        tokenize_loop (dropWhile (\<lambda>x. x \<noteq> CHR 0x0A) cs) line column tokens
      else
        case pattern_match (c # cs) of
          Some (token_type, matched) \<Rightarrow>
            tokenize_loop (drop (length matched) (c # cs))
              (if token_type = T_NEWLINE then line + 1 else line)
              (if token_type = T_NEWLINE then 1
               else column + length (token_value_of token_type matched))
              (tokens @ [\<lparr>tok_type = token_type, tok_value = token_value_of token_type matched,
                          tok_line = line, tok_column = column\<rparr>])
        | None \<Rightarrow> Inl (LexError line column c))"
  by pat_completeness auto
termination
proof (relation "measure (\<lambda>(src, line, column, tokens). length src)", goal_cases)
  case 1
  show ?case by simp
next
  case 2
  then show ?case by simp
next
  case 3
  then show ?case by (simp add: length_dropWhile_le less_Suc_eq_le)
next
  case (4 c cs line column tokens x2 token_type matched)
  from 4 have "first_match token_specs (c # cs) = Some (token_type, matched)"
    by (simp add: pattern_match_def)
  then have "matched \<noteq> []"
    by (auto simp: token_specs_def match_literal_def match_string_literal_def
          match_variable_def match_label_def split: if_splits)
  then show ?case by (cases matched) simp_all
qed

definition tokenize :: "string \<Rightarrow> lex_error + Token list" where
  "tokenize source = tokenize_loop source 1 1 []"

section \<open>Predicates used in the proofs\<close>

text \<open>
  Every name in the label cache is a label name of the script.
\<close>

definition labels_known :: "ScriptNode \<Rightarrow> Interpreter \<Rightarrow> bool" where
  "labels_known script s \<longleftrightarrow> dom (label_cache s) \<subseteq> script_label_names script"

text \<open>
  The states in which the script \<^verbatim>\<open>loop:\<close>, \<^verbatim>\<open>goto loop\<close> stands at its \<^verbatim>\<open>goto\<close> with
  the label defined at index 0 and its statement executed before.
\<close>

definition cycling :: "Interpreter \<Rightarrow> bool" where
  "cycling s \<longleftrightarrow>
     current_line (runtime s) = 1 \<and> \<not> should_exit (runtime s) \<and>
     label_cache s ''loop'' = Some 0 \<and> 0 \<in> label_statements_processed s"

text \<open>
  What holds of every token: a \<^verbatim>\<open>NEWLINE\<close> token is one newline, a token that is
  neither a \<^verbatim>\<open>STRING\<close> nor a \<^verbatim>\<open>NEWLINE\<close> has no newline in its value, and the value
  of a \<^verbatim>\<open>STRING\<close> has no quote.
\<close>

definition well_formed_token :: "Token \<Rightarrow> bool" where
  "well_formed_token t \<longleftrightarrow>
     (tok_type t = T_NEWLINE \<longrightarrow> tok_value t = [CHR 0x0A]) \<and>
     (tok_type t \<noteq> T_STRING \<and> tok_type t \<noteq> T_NEWLINE \<longrightarrow> CHR 0x0A \<notin> set (tok_value t)) \<and>
     (tok_type t = T_STRING \<longrightarrow> CHR 0x22 \<notin> set (tok_value t))"

text \<open>The number of newline characters in the values of a token list.\<close>

definition newlines_in :: "Token list \<Rightarrow> nat" where
  "newlines_in tokens = sum_list (map (\<lambda>t. count_list (tok_value t) (CHR 0x0A)) tokens)"

text \<open>
  A template cut into its pieces for the proof about interpolation: \<open>Ref\<close> is a
  reference as \<open>variable_matches\<close> finds it, \<open>Lit\<close> is text that is not one (a single
  character of the template, or a value put in for a reference).
\<close>

datatype piece = Lit string | Ref string

function pieces :: "string \<Rightarrow> piece list" where
  "pieces [] = []"
| "pieces (c # cs) =
     (if c = CHR ''$'' \<and> cs \<noteq> [] \<and> is_ident_start (hd cs)
      then Ref (c # takeWhile is_ident_char cs) # pieces (dropWhile is_ident_char cs)
      else Lit [c] # pieces cs)"
  by pat_completeness auto
termination
  by (relation "measure length") (auto simp: length_dropWhile_le less_Suc_eq_le)

fun piece_text :: "piece \<Rightarrow> string" where
  "piece_text (Lit t) = t"
| "piece_text (Ref n) = n"

definition render :: "piece list \<Rightarrow> string" where
  "render ps = concat (map piece_text ps)"

fun fill :: "string \<Rightarrow> string \<Rightarrow> piece \<Rightarrow> piece" where
  "fill a v (Lit t) = Lit t"
| "fill a v (Ref n) = (if n = a then Lit v else Ref n)"

fun fill_all :: "(string \<Rightarrow> string) \<Rightarrow> string set \<Rightarrow> piece \<Rightarrow> piece" where
  "fill_all val A (Lit t) = Lit t"
| "fill_all val A (Ref n) = (if n \<in> A then Lit (val n) else Ref n)"

fun ref_names :: "piece list \<Rightarrow> string list" where
  "ref_names [] = []"
| "ref_names (Lit t # ps) = ref_names ps"
| "ref_names (Ref n # ps) = n # ref_names ps"

definition good_piece :: "string set \<Rightarrow> piece \<Rightarrow> bool" where
  "good_piece A p \<longleftrightarrow>
     (case p of
        Lit t \<Rightarrow> CHR ''$'' \<notin> set t
      | Ref n \<Rightarrow> n \<in> A \<and> (\<exists>m. n = CHR ''$'' # m \<and> CHR ''$'' \<notin> set m))"

definition incomparable :: "string set \<Rightarrow> bool" where
  "incomparable A \<longleftrightarrow> (\<forall>n \<in> A. \<forall>m \<in> A. n \<noteq> m \<longrightarrow> take (length n) m \<noteq> n)"

section \<open>Properties\<close>

declare str_replace.simps [simp del] phase2_loop.simps [simp del]

subsection \<open>Stepping at a pausing statement\<close>

text \<open>
  C1, as the specification states it: a step at a \<^verbatim>\<open>Reply\<close> or \<^verbatim>\<open>GetIntent\<close> pauses and
  leaves the program counter where it is. Not so: for the script \<^verbatim>\<open>reply "Hi"\<close>,
  \<^verbatim>\<open>exit\<close> and a new interpreter, the step at the \<^verbatim>\<open>reply\<close> pauses with the counter
  moved from 0 to 1.
\<close>

theorem pause_keeps_counter_counterexample:
  "execution_paused (snd (execute_script_step (ScriptNode [ReplyNode ''Hi'', ExitNode])
       (Interpreter_init RuntimeEnvironment_init))) \<and>
   current_line (runtime (snd (execute_script_step (ScriptNode [ReplyNode ''Hi'', ExitNode])
       (Interpreter_init RuntimeEnvironment_init)))) \<noteq>
   current_line (runtime (Interpreter_init RuntimeEnvironment_init))"
  by (simp add: execute_script_step_def execute_node_def py_index_def Interpreter_init_def
        RuntimeEnvironment_init_def)

text \<open>
  C1, amended: when the statement at the program counter is a \<^verbatim>\<open>Reply\<close> or a
  \<^verbatim>\<open>GetIntent\<close>, one step pauses (reason \<^verbatim>\<open>reply\<close> or \<^verbatim>\<open>get_intent\<close>), returns the
  interpolated message or nothing, and moves the program counter one past the pausing
  statement; clearing the pause leaves the counter there, so the next turn goes on at
  the statement behind the pausing one.
\<close>

theorem pause_advances_counter:
  assumes "current_line (runtime s) < int (length (statements script))"
      and "py_index (statements script) (current_line (runtime s)) = Some node"
      and "node = ReplyNode m \<or> node = GetIntentNode v"
  shows "case execute_script_step script s of (r, s') \<Rightarrow>
           r = Inr (if node = ReplyNode m then Some (resolve_variables_in_string (runtime s) m)
                    else None) \<and>
           is_execution_paused s' \<and>
           get_pause_reason s' = Some (if node = ReplyNode m then ''reply'' else ''get_intent'') \<and>
           current_line (runtime s') = current_line (runtime s) + 1 \<and>
           current_line (runtime (resume_execution s')) = current_line (runtime s) + 1 \<and>
           \<not> is_execution_paused (resume_execution s')"
  using assms
  by (auto simp: execute_script_step_def execute_node_def is_execution_paused_def
        get_pause_reason_def resume_execution_def)

theorem pause_advances_counter_witness:
  "case execute_script_step (ScriptNode [GetIntentNode ''$user_input'', ExitNode])
          (Interpreter_init RuntimeEnvironment_init) of (r, s') \<Rightarrow>
     r = Inr None \<and> is_execution_paused s' \<and> get_pause_reason s' = Some ''get_intent'' \<and>
     current_line (runtime s') = 1 \<and> current_line (runtime (resume_execution s')) = 1 \<and>
     \<not> is_execution_paused (resume_execution s')"
  using pause_advances_counter [of "Interpreter_init RuntimeEnvironment_init"
      "ScriptNode [GetIntentNode ''$user_input'', ExitNode]" "GetIntentNode ''$user_input''"
      "[]" "''$user_input''"]
  by (simp add: py_index_def Interpreter_init_def RuntimeEnvironment_init_def)

subsection \<open>The classification hook\<close>

text \<open>
  The two interpreters at a \<^verbatim>\<open>GetIntent\<close>, for every state: the first one raises when
  no \<^verbatim>\<open>get_intent\<close> function is registered; the stepping one does not look at the
  registered functions at all.
\<close>

lemma get_intent_raises_1:
  "external_functions_1 s1 ''get_intent'' = None \<Longrightarrow>
   execute_node_1 (GetIntentNode var_name) s1 =
     (Inl UnregisteredExternalFunction, s1\<lparr>has_jumped_1 := False\<rparr>)"
  by (simp add: execute_node_1_def)

lemma get_intent_pauses:
  "execute_node (GetIntentNode var_name) cur s =
     (Inr None,
      s\<lparr>has_jumped := False, execution_paused := True, pause_reason := Some ''get_intent''\<rparr>)"
  by (simp add: execute_node_def)

text \<open>
  C6: a \<^verbatim>\<open>GetIntent\<close> executed, or its pause resumed, while no \<^verbatim>\<open>get_intent\<close> function
  is registered is to fail. The stepping interpreter does not: a new interpreter has no
  function registered, and on the script \<^verbatim>\<open>get_intent $user_input\<close>, \<^verbatim>\<open>reply "done"\<close> its
  step at the \<^verbatim>\<open>get_intent\<close> returns without an error, paused with the program counter
  at 1; the first turn of the controller ends there with no reply and no error, and the
  turn that resumes it replies \<^verbatim>\<open>done\<close>. The first interpreter raises at the same
  statement.
\<close>

theorem get_intent_unregistered_no_error:
  "external_functions (Interpreter_init RuntimeEnvironment_init) ''get_intent'' = None \<and>
   (case execute_script_step (ScriptNode [GetIntentNode ''$user_input'', ReplyNode ''done''])
           (Interpreter_init RuntimeEnvironment_init) of
      (r, s) \<Rightarrow> r = Inr None \<and> execution_paused s \<and> pause_reason s = Some ''get_intent'' \<and>
                current_line (runtime s) = 1) \<and>
   map_option fst
     (controller_execute_script 2 (ScriptNode [GetIntentNode ''$user_input'', ReplyNode ''done''])
        (Interpreter_init RuntimeEnvironment_init)) = Some (Inr []) \<and>
   map_option fst
     (controller_execute_script 2 (ScriptNode [GetIntentNode ''$user_input'', ReplyNode ''done''])
        (snd (the (controller_execute_script 2
                     (ScriptNode [GetIntentNode ''$user_input'', ReplyNode ''done''])
                     (Interpreter_init RuntimeEnvironment_init))))) = Some (Inr [''done'']) \<and>
   fst (execute_node_1 (GetIntentNode ''$user_input'') (Interpreter_1_init RuntimeEnvironment_init))
     = Inl UnregisteredExternalFunction"
  by (simp add: numeral_2_eq_2 controller_execute_script_def resume_execution_def
      is_execution_paused_def execute_script_step_def execute_node_def execute_node_1_def
      py_index_def Interpreter_init_def Interpreter_1_init_def RuntimeEnvironment_init_def
      truthy_def py_str_def resolve_variables_in_string_def)

subsection \<open>Reset\<close>

text \<open>
  What \<^verbatim>\<open>reset\<close> does, for every environment: the five fields it assigns are as in a
  new environment, and the list of declared intents is the one from before.
\<close>

lemma reset_eq:
  "reset rt = RuntimeEnvironment_init\<lparr>defined_intents := defined_intents rt\<rparr>"
  by (simp add: reset_def RuntimeEnvironment_init_def)

text \<open>
  C7: \<^verbatim>\<open>reset\<close> is to give the environment as it was when created, with nothing of the
  session before left in it. The code leaves the declared intents: an environment that
  differs from a new one in its declared intents only (after
  \<^verbatim>\<open>set_defined_intents(["query_price"])\<close>) still holds them after \<^verbatim>\<open>reset\<close> and is not
  the new environment.
\<close>

theorem reset_leaves_defined_intents:
  "defined_intents (reset (set_defined_intents [''query_price''] RuntimeEnvironment_init))
     = [''query_price''] \<and>
   defined_intents RuntimeEnvironment_init = [] \<and>
   reset (set_defined_intents [''query_price''] RuntimeEnvironment_init) \<noteq> RuntimeEnvironment_init"
  by (simp add: reset_def RuntimeEnvironment_init_def set_defined_intents_def)

subsection \<open>The copy of the declared intents\<close>

text \<open>
  C9: \<^verbatim>\<open>get_defined_intents\<close> returns a new list object with the elements of the stored
  one; the call changes nothing the environment holds, and whatever is then done to the
  returned list in place, the environment (its declared intents and every other field)
  stays as it was.
\<close>

theorem get_defined_intents_copy:
  assumes "defined_intents_obj e < next_ref h"
  shows "case get_defined_intents_obj e h of (r, e', h') \<Rightarrow>
           cells h' r = defined_intents (env_of h e) \<and>
           r \<noteq> defined_intents_obj e' \<and>
           e' = e \<and> env_of h' e' = env_of h e \<and>
           (\<forall>ys. env_of (list_assign r ys h') e' = env_of h e)"
  using assms
  by (auto simp: get_defined_intents_obj_def list_copy_def env_of_def list_assign_def)

theorem get_defined_intents_copy_witness:
  "case get_defined_intents_obj
          \<lparr>variables_obj = Map.empty, labels_obj = Map.empty, current_line_obj = 0,
           should_exit_obj = False, last_reply_obj = None, defined_intents_obj = 0\<rparr>
          \<lparr>cells = (\<lambda>r. if r = 0 then [''a'', ''b''] else []), next_ref = 1\<rparr> of
     (r, e', h') \<Rightarrow>
       r = 1 \<and> cells h' r = [''a'', ''b''] \<and>
       defined_intents (env_of (list_assign r [''a'', ''b'', ''c''] h') e') = [''a'', ''b'']"
  using get_defined_intents_copy
    [of "\<lparr>variables_obj = Map.empty, labels_obj = Map.empty, current_line_obj = 0,
          should_exit_obj = False, last_reply_obj = None, defined_intents_obj = 0\<rparr>"
        "\<lparr>cells = (\<lambda>r. if r = 0 then [''a'', ''b''] else []), next_ref = 1\<rparr>"]
  by (simp add: get_defined_intents_obj_def list_copy_def env_of_def list_assign_def)

subsection \<open>Stepping past the end\<close>

text \<open>
  C10: with the program counter at or past the end of the statement sequence, the step
  returns no output and leaves the interpreter, and with it the environment, as it was;
  no statement is indexed.
\<close>

theorem step_past_end:
  "int (length (statements script)) \<le> current_line (runtime s) \<Longrightarrow>
   execute_script_step script s = (Inr None, s)"
  by (simp add: execute_script_step_def)

theorem step_past_end_witness:
  "int (length (statements (ScriptNode [ExitNode]))) \<le>
     current_line (runtime (Interpreter_init (RuntimeEnvironment_init\<lparr>current_line := 1\<rparr>))) \<and>
   execute_script_step (ScriptNode [ExitNode])
       (Interpreter_init (RuntimeEnvironment_init\<lparr>current_line := 1\<rparr>)) =
     (Inr None, Interpreter_init (RuntimeEnvironment_init\<lparr>current_line := 1\<rparr>))"
  using step_past_end [of "ScriptNode [ExitNode]"
      "Interpreter_init (RuntimeEnvironment_init\<lparr>current_line := 1\<rparr>)"]
  by (simp add: Interpreter_init_def RuntimeEnvironment_init_def)

subsection \<open>Jumps to labels that the script does not have\<close>

lemma py_index_in_set: "py_index xs i = Some x \<Longrightarrow> x \<in> set xs"
  by (auto simp: py_index_def Let_def split: if_splits)

lemma node_names_subset:
  "node \<in> set (statements script) \<Longrightarrow> node_label_names node \<subseteq> script_label_names script"
  by (auto simp: script_label_names_def)

lemma label_cache_define_label:
  "dom (label_cache (define_label name line s)) \<subseteq> insert name (dom (label_cache s))"
  by (auto simp: define_label_def Let_def split: if_splits)

lemma label_cache_predeclare:
  "dom (label_cache (fold predeclare_label names s)) = dom (label_cache s) \<union> set names"
  by (induction names arbitrary: s) (auto simp: predeclare_label_def)

lemma label_cache_jump:
  "label_cache (snd (jump_to_label target cur s)) = label_cache s"
  by (auto simp: jump_to_label_def Let_def split: option.splits)

lemma label_cache_execute_node:
  "dom (label_cache (snd (execute_node node cur s))) \<subseteq> dom (label_cache s) \<union> node_label_names node"
proof (cases node)
  case (LabelNode name)
  then show ?thesis
    using label_cache_define_label [of name cur "s\<lparr>has_jumped := False, execution_paused := False\<rparr>"]
    by (auto simp: execute_node_def Let_def)
next
  case (IfNode v c target)
  then show ?thesis
    using label_cache_jump [of target cur "s\<lparr>has_jumped := False, execution_paused := False\<rparr>"]
    by (auto simp: execute_node_def Let_def split: prod.splits sum.splits)
next
  case (GotoNode target)
  then show ?thesis
    using label_cache_jump [of target cur "s\<lparr>has_jumped := False, execution_paused := False\<rparr>"]
    by (auto simp: execute_node_def Let_def split: prod.splits sum.splits)
next
  case (LabelDeclarationsNode names)
  then show ?thesis
    by (simp add: execute_node_def label_cache_predeclare)
qed (auto simp: execute_node_def Let_def split: option.splits)

lemma labels_known_execute_node:
  assumes "labels_known script s" and "node \<in> set (statements script)"
  shows "labels_known script (snd (execute_node node cur s))"
  using assms label_cache_execute_node [of node cur s] node_names_subset [of node script]
  unfolding labels_known_def by blast

lemma labels_known_update [simp]:
  "labels_known script (s\<lparr>has_jumped := b\<rparr>) = labels_known script s"
  "labels_known script (s\<lparr>runtime := rt\<rparr>) = labels_known script s"
  "labels_known script (s\<lparr>execution_paused := b\<rparr>) = labels_known script s"
  "labels_known script (s\<lparr>pause_reason := r\<rparr>) = labels_known script s"
  "labels_known script (s\<lparr>external_functions := fs\<rparr>) = labels_known script s"
  by (simp_all add: labels_known_def)

lemma labels_known_step:
  assumes "labels_known script s"
  shows "labels_known script (snd (execute_script_step script s))"
proof (cases "int (length (statements script)) \<le> current_line (runtime s)")
  case True
  with assms show ?thesis by (simp add: execute_script_step_def)
next
  case False
  show ?thesis
  proof (cases "py_index (statements script) (current_line (runtime s))")
    case None
    with False assms show ?thesis by (simp add: execute_script_step_def)
  next
    case (Some node)
    from labels_known_execute_node [OF assms py_index_in_set [OF Some]]
    have "labels_known script (snd (execute_node node (current_line (runtime s)) s))" .
    with False Some show ?thesis
      by (auto simp: execute_script_step_def split: prod.splits sum.splits)
  qed
qed

lemma label_cache_scan_from:
  "dom (label_cache (scan_from line nodes s))
     \<subseteq> dom (label_cache s) \<union> (\<Union>node \<in> set nodes. node_label_names node)"
proof (induction nodes arbitrary: line s)
  case Nil
  show ?case by simp
next
  case (Cons node nodes)
  show ?case
  proof (cases node)
    case (LabelNode name)
    from Cons.IH [of "line + 1" "define_label name line s"] label_cache_define_label [of name line s]
    show ?thesis using LabelNode by auto
  qed (use Cons.IH [of "line + 1" s] in auto)
qed

lemma labels_known_scan: "labels_known script (scan_labels script s)"
  using label_cache_scan_from [of 0 "statements script" "s\<lparr>label_cache := Map.empty\<rparr>"]
  by (auto simp: labels_known_def scan_labels_def script_label_names_def)

lemma labels_known_phase2:
  "labels_known script s \<Longrightarrow>
   labels_known script (snd (phase2_loop script replies iteration_count s))"
proof (induction script replies iteration_count s rule: phase2_loop.induct)
  case (1 script replies iteration_count s)
  show ?case
  proof (cases "current_line (runtime s) < int (length (statements script)) \<and>
         \<not> should_exit (runtime s) \<and> iteration_count < max_iterations")
    case False
    with "1.prems" show ?thesis by (subst phase2_loop.simps) auto
  next
    case True
    show ?thesis
    proof (cases "py_index (statements script) (current_line (runtime s))")
      case None
      with True "1.prems" show ?thesis by (subst phase2_loop.simps) simp
    next
      case (Some node)
      obtain r s' where ex: "execute_node node (current_line (runtime s)) s = (r, s')"
        by (cases "execute_node node (current_line (runtime s)) s")
      from labels_known_execute_node
             [OF "1.prems" py_index_in_set [OF Some], of "current_line (runtime s)"] ex
      have k: "labels_known script s'" by simp
      show ?thesis
      proof (cases r)
        case (Inl e)
        with True Some ex k show ?thesis by (subst phase2_loop.simps) simp
      next
        case (Inr result)
        with True Some ex k "1.IH" [OF True Some ex [symmetric] Inr] show ?thesis
          by (subst phase2_loop.simps) simp
      qed
    qed
  qed
qed

lemma session_state_labels_known: "session_state script s \<Longrightarrow> labels_known script s"
proof (induction rule: session_state.induct)
  case (created rt)
  show ?case by (simp add: labels_known_def Interpreter_init_def)
next
  case (stepped s)
  from stepped.IH show ?case by (rule labels_known_step)
next
  case (scanned s)
  show ?case by (rule labels_known_scan)
next
  case (run s)
  show ?case
    unfolding execute_script_def execute_script_phase2_def
    by (rule labels_known_phase2) (simp add: labels_known_scan)
next
  case (resumed s)
  from resumed.IH show ?case by (simp add: resume_execution_def)
next
  case (registered s name f)
  from registered.IH show ?case by (simp add: register_function_def)
next
  case (written s rt)
  from written.IH show ?case by simp
qed

text \<open>
  C5: in every state an interpreter reaches while it serves a script, a step at a
  \<^verbatim>\<open>Goto\<close>, or at an \<^verbatim>\<open>If\<close> whose comparison holds, with a target that the script
  neither declares nor defines, raises the undefined-label error; the program counter
  and the variables stay as they were (only the two flags are reset), so the jump is
  not passed over in silence.
\<close>

theorem undeclared_label_fails:
  assumes "session_state script s"
      and "target \<notin> script_label_names script"
      and "current_line (runtime s) < int (length (statements script))"
      and "py_index (statements script) (current_line (runtime s)) = Some node"
      and "node = GotoNode target \<or>
           (node = IfNode v c target \<and> get_variable (runtime s) v (Some []) = Some c)"
  shows "execute_script_step script s =
           (Inl (UndefinedLabel target), s\<lparr>has_jumped := False, execution_paused := False\<rparr>)"
proof -
  from session_state_labels_known [OF assms(1)] assms(2)
  have "label_cache s target = None" by (auto simp: labels_known_def)
  with assms(3-5) show ?thesis
    by (auto simp: execute_script_step_def execute_node_def jump_to_label_def)
qed

theorem undeclared_label_fails_witness:
  "fst (execute_script_step
          (ScriptNode [SetNode ''$intent'' ''buy'', IfNode ''$intent'' ''buy'' ''checkout'', ExitNode])
          (snd (execute_script_step
                  (ScriptNode [SetNode ''$intent'' ''buy'', IfNode ''$intent'' ''buy'' ''checkout'',
                               ExitNode])
                  (Interpreter_init RuntimeEnvironment_init)))) =
   Inl (UndefinedLabel ''checkout'')"
  using undeclared_label_fails
    [of "ScriptNode [SetNode ''$intent'' ''buy'', IfNode ''$intent'' ''buy'' ''checkout'', ExitNode]"
        "snd (execute_script_step
                (ScriptNode [SetNode ''$intent'' ''buy'', IfNode ''$intent'' ''buy'' ''checkout'',
                             ExitNode])
                (Interpreter_init RuntimeEnvironment_init))"
        "''checkout''" "IfNode ''$intent'' ''buy'' ''checkout''" "''$intent''" "''buy''",
     OF session_state.stepped [OF session_state.created]]
  by (simp add: script_label_names_def execute_script_step_def execute_node_def py_index_def
      Interpreter_init_def RuntimeEnvironment_init_def set_variable_def get_variable_def
      strip_sigil_def)

text \<open>
  The first interpreter does the same with its label table: a jump to a name that is not
  in the table raises.
\<close>

lemma undeclared_label_fails_1:
  "labels (runtime_1 s) target = None \<Longrightarrow>
   execute_node_1 (GotoNode target) s = (Inl (UndefinedLabel target), s\<lparr>has_jumped_1 := False\<rparr>)"
  by (simp add: execute_node_1_def jump_1_def jump_to_label_rt_def)

subsection \<open>Forward jumps\<close>

text \<open>
  C2: a jump to a label defined further down is to land there, also when the script is
  driven step by step. The code does not do that. The turn of the controller never runs
  the prescan: for the script \<^verbatim>\<open>goto L\<close>, \<^verbatim>\<open>exit\<close>, \<^verbatim>\<open>L:\<close>, \<^verbatim>\<open>reply "ok"\<close> and a new
  interpreter, the turn ends in the undefined-label error with the program counter still
  at the jump, whatever the fuel. The full run, which scans first, replies \<^verbatim>\<open>ok\<close>. And
  where the script declares the label ahead (\<^verbatim>\<open>labels {L}\<close>), the declaration is executed
  after the prescan and puts the sentinel over the index found, so that even the full
  run passes over the jump and ends at the \<^verbatim>\<open>exit\<close> with no reply.
\<close>

theorem forward_goto_fails_stepwise:
  "map_option (\<lambda>(r, s). (r, current_line (runtime s)))
     (controller_execute_script (Suc fuel)
        (ScriptNode [GotoNode ''L'', ExitNode, LabelNode ''L'', ReplyNode ''ok''])
        (Interpreter_init RuntimeEnvironment_init)) = Some (Inl (UndefinedLabel ''L''), 0) \<and>
   fst (execute_script
        (ScriptNode [GotoNode ''L'', ExitNode, LabelNode ''L'', ReplyNode ''ok''])
        (Interpreter_init RuntimeEnvironment_init)) = Inr [''ok''] \<and>
   (case execute_script
        (ScriptNode [LabelDeclarationsNode [''L''], GotoNode ''L'', ExitNode, LabelNode ''L'',
                     ReplyNode ''ok''])
        (Interpreter_init RuntimeEnvironment_init) of
      (r, s) \<Rightarrow> r = Inr [] \<and> should_exit (runtime s) \<and> current_line (runtime s) = 3)"
proof (intro conjI)
  show "map_option (\<lambda>(r, s). (r, current_line (runtime s)))
     (controller_execute_script (Suc fuel)
        (ScriptNode [GotoNode ''L'', ExitNode, LabelNode ''L'', ReplyNode ''ok''])
        (Interpreter_init RuntimeEnvironment_init)) = Some (Inl (UndefinedLabel ''L''), 0)"
    by (simp add: controller_execute_script_def resume_execution_def execute_script_step_def
        execute_node_def jump_to_label_def py_index_def Interpreter_init_def
        RuntimeEnvironment_init_def)
  show "fst (execute_script
        (ScriptNode [GotoNode ''L'', ExitNode, LabelNode ''L'', ReplyNode ''ok''])
        (Interpreter_init RuntimeEnvironment_init)) = Inr [''ok'']"
    by (simp add: execute_script_def execute_script_phase2_def scan_labels_def define_label_def
        phase2_loop.simps max_iterations_def execute_node_def jump_to_label_def py_index_def
        Interpreter_init_def RuntimeEnvironment_init_def resolve_variables_in_string_def
        truthy_def py_str_def is_ident_start_def)
  show "case execute_script
        (ScriptNode [LabelDeclarationsNode [''L''], GotoNode ''L'', ExitNode, LabelNode ''L'',
                     ReplyNode ''ok''])
        (Interpreter_init RuntimeEnvironment_init) of
      (r, s) \<Rightarrow> r = Inr [] \<and> should_exit (runtime s) \<and> current_line (runtime s) = 3"
    by (simp add: execute_script_def execute_script_phase2_def scan_labels_def define_label_def
        phase2_loop.simps max_iterations_def predeclare_label_def execute_node_def
        jump_to_label_def py_index_def Interpreter_init_def RuntimeEnvironment_init_def
        resolve_variables_in_string_def truthy_def py_str_def is_ident_start_def)
qed

subsection \<open>Interpolation\<close>

text \<open>
  Where the code and the single pass agree: on a template in which every sigil starts a
  reference and no referenced name is the beginning of another one, with values of the
  referenced variables that hold no sigil. An unset variable has the empty value there.
\<close>

lemma render_simps [simp]:
  "render [] = []" "render (p # ps) = piece_text p @ render ps"
  by (simp_all add: render_def)

lemma render_pieces: "render (pieces s) = s"
  by (induction s rule: pieces.induct) auto

lemma ref_names_pieces: "ref_names (pieces s) = variable_matches s"
  by (induction s rule: pieces.induct) auto

lemma single_pass_pieces:
  "interpolate_single_pass rt s =
   render (map (fill_all (\<lambda>n. py_str (get_variable rt n (Some []))) UNIV) (pieces s))"
  by (induction s rule: pieces.induct) auto

lemma dollar_not_ident [simp]: "\<not> is_ident_char (CHR ''$'')"
  by (simp add: is_ident_char_def)

lemma takeWhile_ident_no_dollar [simp]: "CHR ''$'' \<notin> set (takeWhile is_ident_char cs)"
  by (auto dest: set_takeWhileD)

lemma count_takeWhile_ident [simp]: "count_list (takeWhile is_ident_char cs) (CHR ''$'') = 0"
  by (simp add: count_list_0_iff)

lemma count_dollar_split:
  "count_list cs (CHR ''$'') = count_list (dropWhile is_ident_char cs) (CHR ''$'')"
proof -
  have "count_list (takeWhile is_ident_char cs @ dropWhile is_ident_char cs) (CHR ''$'')
        = count_list (dropWhile is_ident_char cs) (CHR ''$'')"
    by (simp only: count_list_append count_takeWhile_ident)
  then show ?thesis by simp
qed

lemma count_dollar_pieces:
  "count_list s (CHR ''$'') =
   length (variable_matches s) + length (filter (\<lambda>p. p = Lit [CHR ''$'']) (pieces s))"
proof (induction s rule: pieces.induct)
  case 1
  show ?case by simp
next
  case (2 c cs)
  show ?case
  proof (cases "c = CHR ''$'' \<and> cs \<noteq> [] \<and> is_ident_start (hd cs)")
    case True
    with 2 count_dollar_split [of cs] show ?thesis by simp
  next
    case False
    with 2 show ?thesis by auto
  qed
qed

lemma pieces_good:
  assumes "count_list s (CHR ''$'') = length (variable_matches s)"
  shows "\<forall>p \<in> set (pieces s). good_piece (set (variable_matches s)) p"
proof -
  from assms count_dollar_pieces [of s]
  have nolone: "Lit [CHR ''$''] \<notin> set (pieces s)"
    by (auto simp: filter_empty_conv)
  have "\<And>A. Lit [CHR ''$''] \<notin> set (pieces s) \<Longrightarrow> set (variable_matches s) \<subseteq> A \<Longrightarrow>
        \<forall>p \<in> set (pieces s). good_piece A p"
  proof (induction s rule: pieces.induct)
    case 1
    show ?case by simp
  next
    case (2 c cs)
    then show ?case by (auto simp: good_piece_def)
  qed
  with nolone show ?thesis by blast
qed

lemma replace_through:
  "CHR ''$'' \<notin> set t \<Longrightarrow> str_replace (CHR ''$'' # m) v (t @ rest) = t @ str_replace (CHR ''$'' # m) v rest"
proof (induction t)
  case Nil
  show ?case by simp
next
  case (Cons c t)
  then have c: "c \<noteq> CHR ''$''" by auto
  have "str_replace (CHR ''$'' # m) v ((c # t) @ rest) = c # str_replace (CHR ''$'' # m) v (t @ rest)"
    using c by (subst str_replace.simps) simp
  with Cons show ?case by simp
qed

lemma replace_hit:
  "a \<noteq> [] \<Longrightarrow> str_replace a v (a @ rest) = v @ str_replace a v rest"
  by (subst str_replace.simps) (cases a; simp)

lemma replace_miss:
  assumes "n = CHR ''$'' # m" "CHR ''$'' \<notin> set m" "a = CHR ''$'' # k"
      and "take (length a) n \<noteq> a" "take (length n) a \<noteq> n"
  shows "str_replace a v (n @ rest) = n @ str_replace a v rest"
proof -
  have "take (length a) (n @ rest) \<noteq> a"
  proof
    assume eq: "take (length a) (n @ rest) = a"
    show False
    proof (cases "length a \<le> length n")
      case True
      with eq assms(4) show False by simp
    next
      case False
      then have "take (length n) a = take (length n) (take (length a) (n @ rest))" using eq by simp
      also have "\<dots> = n" using False by (simp add: min_def)
      finally show False using assms(5) by simp
    qed
  qed
  then have "str_replace a v (n @ rest) = CHR ''$'' # str_replace a v (m @ rest)"
    using assms(1,3) by (subst str_replace.simps) simp
  with replace_through [OF assms(2), of k v rest] assms(1,3) show ?thesis by simp
qed

lemma replace_render:
  assumes "\<forall>p \<in> set ps. good_piece A p" "incomparable A" "a \<in> A" "a = CHR ''$'' # k"
  shows "str_replace a v (render ps) = render (map (fill a v) ps)"
  using assms(1)
proof (induction ps)
  case Nil
  show ?case using assms(4) by (subst str_replace.simps) simp
next
  case (Cons p ps)
  then have ih: "str_replace a v (render ps) = render (map (fill a v) ps)" by simp
  show ?case
  proof (cases p)
    case (Lit t)
    with Cons.prems have "CHR ''$'' \<notin> set t" by (simp add: good_piece_def)
    from replace_through [OF this, of k v "render ps"] ih Lit assms(4) show ?thesis by simp
  next
    case (Ref n)
    with Cons.prems obtain m where n: "n \<in> A" "n = CHR ''$'' # m" "CHR ''$'' \<notin> set m"
      by (auto simp: good_piece_def)
    show ?thesis
    proof (cases "n = a")
      case True
      with replace_hit [of a v "render ps"] ih Ref assms(4) show ?thesis by simp
    next
      case False
      with assms(2,3) n(1) have "take (length a) n \<noteq> a" "take (length n) a \<noteq> n"
        by (auto simp: incomparable_def)
      from replace_miss [OF n(2,3) assms(4) this, of v "render ps"] ih Ref False
      show ?thesis by simp
    qed
  qed
qed

lemma good_fill:
  "good_piece A p \<Longrightarrow> CHR ''$'' \<notin> set v \<Longrightarrow> good_piece A (fill a v p)"
  by (cases p) (auto simp: good_piece_def)

lemma fill_all_step:
  "fill_all val (set names) (fill a (val a) p) = fill_all val (set (a # names)) p"
  by (cases p) auto

lemma fold_replace_render:
  assumes "incomparable A" "\<forall>n \<in> A. \<exists>k. n = CHR ''$'' # k" "\<forall>n \<in> A. CHR ''$'' \<notin> set (val n)"
  shows "\<forall>p \<in> set ps. good_piece A p \<Longrightarrow> set names \<subseteq> A \<Longrightarrow>
         fold (\<lambda>var_name result. str_replace var_name (val var_name) result) names (render ps)
           = render (map (fill_all val (set names)) ps)"
proof (induction names arbitrary: ps)
  case Nil
  have "map (fill_all val {}) ps = ps"
    by (induction ps) (auto intro: piece.exhaust simp: map_idI, (case_tac a; simp)+)
  then show ?case by simp
next
  case (Cons a names)
  from Cons.prems(2) have aA: "a \<in> A" by simp
  with assms(2) obtain k where k: "a = CHR ''$'' # k" by blast
  from assms(3) aA have v: "CHR ''$'' \<notin> set (val a)" by blast
  have step: "str_replace a (val a) (render ps) = render (map (fill a (val a)) ps)"
    by (rule replace_render [OF Cons.prems(1) assms(1) aA k])
  have good': "\<forall>p \<in> set (map (fill a (val a)) ps). good_piece A p"
    using Cons.prems(1) v by (auto intro: good_fill)
  from Cons.IH [OF good'] Cons.prems(2)
  have "fold (\<lambda>var_name result. str_replace var_name (val var_name) result) names
          (render (map (fill a (val a)) ps))
        = render (map (fill_all val (set names)) (map (fill a (val a)) ps))" by simp
  with step show ?case by (simp add: fill_all_step o_def)
qed

lemma fill_all_refs:
  "set (ref_names ps) \<subseteq> A \<Longrightarrow> map (fill_all val A) ps = map (fill_all val UNIV) ps"
  by (induction ps rule: ref_names.induct) auto

lemma ref_names_mem: "n \<in> set (ref_names ps) \<Longrightarrow> Ref n \<in> set ps"
  by (induction ps rule: ref_names.induct) auto

lemma interpolation_agrees:
  assumes "count_list template (CHR ''$'') = length (variable_matches template)"
      and "\<forall>n \<in> set (variable_matches template). \<forall>m \<in> set (variable_matches template).
             n \<noteq> m \<longrightarrow> take (length n) m \<noteq> n"
      and "\<forall>n \<in> set (variable_matches template).
             CHR ''$'' \<notin> set (py_str (get_variable rt n (Some [])))"
  shows "resolve_variables_in_string rt template = interpolate_single_pass rt template"
proof -
  let ?A = "set (variable_matches template)"
  let ?val = "\<lambda>n. py_str (get_variable rt n (Some []))"
  have good: "\<forall>p \<in> set (pieces template). good_piece ?A p" by (rule pieces_good [OF assms(1)])
  have inc: "incomparable ?A" using assms(2) by (simp add: incomparable_def)
  have sig: "\<forall>n \<in> ?A. \<exists>k. n = CHR ''$'' # k"
  proof
    fix n assume "n \<in> ?A"
    then have "n \<in> set (ref_names (pieces template))" by (simp add: ref_names_pieces)
    then have "Ref n \<in> set (pieces template)" by (rule ref_names_mem)
    with good have "good_piece ?A (Ref n)" by blast
    then show "\<exists>k. n = CHR ''$'' # k" by (auto simp: good_piece_def)
  qed
  from fold_replace_render [OF inc sig assms(3) good subset_refl]
  have "resolve_variables_in_string rt template
          = render (map (fill_all ?val ?A) (pieces template))"
    by (simp add: resolve_variables_in_string_def render_pieces)
  also have "map (fill_all ?val ?A) (pieces template) = map (fill_all ?val UNIV) (pieces template)"
    by (rule fill_all_refs) (simp add: ref_names_pieces)
  finally show ?thesis by (simp add: single_pass_pieces)
qed

text \<open>
  C3: interpolation is to be one pass over the template that puts each variable's value
  in the place of its reference. The code replaces, for each match found in the
  template, every occurrence of the matched text in the result built so far. With
  \<open>user = Bob\<close> and \<open>user_input = hi\<close> the template \<^verbatim>\<open>$user: $user_input\<close> becomes
  \<^verbatim>\<open>Bob: Bob_input\<close>, where one pass gives \<^verbatim>\<open>Bob: hi\<close>: the reference
  \<^verbatim>\<open>$user_input\<close> is hit by the replacement of \<^verbatim>\<open>$user\<close>. With \<open>user_input = $intent\<close>
  and \<open>intent = buy\<close> the template \<^verbatim>\<open>$user_input ($intent)\<close> becomes \<^verbatim>\<open>buy (buy)\<close>,
  where one pass gives \<^verbatim>\<open>$intent (buy)\<close>: the value put in for \<^verbatim>\<open>$user_input\<close> is
  replaced again.
\<close>

theorem interpolation_not_single_pass:
  "resolve_variables_in_string
     (set_variable ''$user_input'' ''hi'' (set_variable ''$user'' ''Bob'' RuntimeEnvironment_init))
     ''$user: $user_input'' = ''Bob: Bob_input'' \<and>
   interpolate_single_pass
     (set_variable ''$user_input'' ''hi'' (set_variable ''$user'' ''Bob'' RuntimeEnvironment_init))
     ''$user: $user_input'' = ''Bob: hi'' \<and>
   resolve_variables_in_string
     (set_variable ''$intent'' ''buy'' (set_variable ''$user_input'' ''$intent'' RuntimeEnvironment_init))
     ''$user_input ($intent)'' = ''buy (buy)'' \<and>
   interpolate_single_pass
     (set_variable ''$intent'' ''buy'' (set_variable ''$user_input'' ''$intent'' RuntimeEnvironment_init))
     ''$user_input ($intent)'' = ''$intent (buy)''"
  by (simp add: resolve_variables_in_string_def set_variable_def get_variable_def
      strip_sigil_def RuntimeEnvironment_init_def is_ident_start_def is_ident_char_def
      str_replace.simps py_str_def)

subsection \<open>The step cap\<close>

lemma cycling_node:
  "cycling s \<Longrightarrow>
   \<exists>s'. execute_node (GotoNode ''loop'') 1 s = (Inr None, s') \<and> cycling s' \<and> has_jumped s' \<and>
        \<not> execution_paused s' \<and> variables (runtime s') = variables (runtime s)"
  by (simp add: cycling_def execute_node_def jump_to_label_def)

lemma cycling_turn:
  "cycling s \<Longrightarrow>
   turn_loop fuel (ScriptNode [LabelNode ''loop'', GotoNode ''loop'']) replies s = None"
proof (induction fuel arbitrary: s replies)
  case 0
  show ?case by simp
next
  case (Suc fuel)
  from cycling_node [OF Suc.prems] obtain s' where
    n: "execute_node (GotoNode ''loop'') 1 s = (Inr None, s')" and c: "cycling s'"
    and j: "has_jumped s'" and p: "\<not> execution_paused s'" by blast
  from Suc.prems have pc: "current_line (runtime s) = 1" "\<not> should_exit (runtime s)"
    by (simp_all add: cycling_def)
  have "execute_script_step (ScriptNode [LabelNode ''loop'', GotoNode ''loop'']) s = (Inr None, s')"
    using n j pc by (simp add: execute_script_step_def py_index_def)
  then show ?case using pc p Suc.IH [OF c]
    by (simp add: is_execution_paused_def truthy_def)
qed

lemma cycling_phase2:
  "cycling s \<Longrightarrow> iteration_count \<le> max_iterations \<Longrightarrow>
   fst (phase2_loop (ScriptNode [LabelNode ''loop'', GotoNode ''loop'']) replies iteration_count s)
     = Inl PossibleInfiniteLoop"
proof (induction "max_iterations - iteration_count" arbitrary: s iteration_count replies)
  case 0
  then show ?case by (simp add: phase2_loop.simps)
next
  case (Suc k)
  from cycling_node [OF Suc.prems(1)] obtain s' where
    n: "execute_node (GotoNode ''loop'') 1 s = (Inr None, s')" and c: "cycling s'"
    and j: "has_jumped s'" by blast
  from Suc.prems have pc: "current_line (runtime s) = 1" "\<not> should_exit (runtime s)"
    by (simp_all add: cycling_def)
  from Suc.hyps(2) have lt: "iteration_count < max_iterations" by simp
  have c': "cycling (s'\<lparr>has_jumped := False\<rparr>)" using c by (simp add: cycling_def)
  have "phase2_loop (ScriptNode [LabelNode ''loop'', GotoNode ''loop'']) replies iteration_count s =
        phase2_loop (ScriptNode [LabelNode ''loop'', GotoNode ''loop'']) replies
          (iteration_count + 1) (s'\<lparr>has_jumped := False\<rparr>)"
    using n j pc lt
    by (subst phase2_loop.simps) (simp add: py_index_def truthy_def)
  moreover have "fst (phase2_loop (ScriptNode [LabelNode ''loop'', GotoNode ''loop'']) replies
          (iteration_count + 1) (s'\<lparr>has_jumped := False\<rparr>)) = Inl PossibleInfiniteLoop"
    using Suc.hyps(1) [of "iteration_count + 1" "s'\<lparr>has_jumped := False\<rparr>" replies] Suc.hyps(2) c' lt
    by simp
  ultimately show ?case by simp
qed

text \<open>
  The full run of \<^verbatim>\<open>loop:\<close>, \<^verbatim>\<open>goto loop\<close> is stopped by the counter, from every state of
  the interpreter.
\<close>

lemma full_run_cycle_capped:
  "fst (execute_script (ScriptNode [LabelNode ''loop'', GotoNode ''loop'']) s)
     = Inl PossibleInfiniteLoop"
proof -
  let ?script = "ScriptNode [LabelNode ''loop'', GotoNode ''loop'']"
  let ?s1 = "(scan_labels ?script s)
               \<lparr>runtime := (runtime (scan_labels ?script s))\<lparr>current_line := 0, should_exit := False\<rparr>\<rparr>"
  have lc: "label_cache ?s1 ''loop'' = Some 0"
    by (simp add: scan_labels_def define_label_def Let_def)
  obtain s2 where n: "execute_node (LabelNode ''loop'') 0 ?s1 = (Inr None, s2)"
    and c: "cycling (s2\<lparr>runtime := (runtime s2)\<lparr>current_line := current_line (runtime s2) + 1\<rparr>\<rparr>)"
    and j: "\<not> has_jumped s2"
    using lc by (simp add: execute_node_def cycling_def scan_labels_def define_label_def Let_def)
  show ?thesis
    unfolding execute_script_def execute_script_phase2_def
    apply (subst phase2_loop.simps)
    using n j cycling_phase2 [OF c, of 1 "[]"]
    by (simp add: py_index_def truthy_def max_iterations_def scan_labels_def)
qed

text \<open>
  C4: a turn that runs into a cycle of jumps without exit or pause is to end after 1000
  steps with the infinite-loop error. The loop of the controller's turn has no counter:
  for the script \<^verbatim>\<open>loop:\<close>, \<^verbatim>\<open>goto loop\<close> and a new interpreter the turn is still running
  when the fuel is used up, however much fuel it is given, so it never returns. (The
  full run has the counter, see \<open>full_run_cycle_capped\<close>.)
\<close>

theorem controller_turn_runs_forever:
  "controller_execute_script fuel (ScriptNode [LabelNode ''loop'', GotoNode ''loop''])
     (Interpreter_init RuntimeEnvironment_init) = None"
proof (cases fuel)
  case 0
  then show ?thesis by (simp add: controller_execute_script_def)
next
  case (Suc n)
  have "cycling (snd (execute_script_step (ScriptNode [LabelNode ''loop'', GotoNode ''loop''])
          (resume_execution (Interpreter_init RuntimeEnvironment_init))))"
    by (simp add: cycling_def execute_script_step_def execute_node_def py_index_def
        define_label_def resume_execution_def Interpreter_init_def RuntimeEnvironment_init_def)
  then show ?thesis using Suc
    by (simp add: controller_execute_script_def cycling_turn is_execution_paused_def truthy_def
        execute_script_step_def execute_node_def py_index_def define_label_def
        resume_execution_def Interpreter_init_def RuntimeEnvironment_init_def
        split: prod.splits sum.splits)
qed

subsection \<open>Tokens and newlines\<close>

lemma newline_not_ident [simp]: "\<not> is_ident_char (CHR 0x0A)"
  by (simp add: is_ident_char_def)

lemma takeWhile_ident_no_newline [simp]: "CHR 0x0A \<notin> set (takeWhile is_ident_char cs)"
  by (auto dest: set_takeWhileD)

lemma takeWhile_not_quote [simp]: "CHR 0x22 \<notin> set (takeWhile (\<lambda>x. x \<noteq> CHR 0x22) cs)"
  by (auto dest: set_takeWhileD)

lemma match_literal_Some:
  "match_literal lit src = Some m \<longleftrightarrow> m = lit \<and> take (length lit) src = lit"
  by (auto simp: match_literal_def)

lemma first_match_mem:
  "first_match specs src = Some (token_type, m) \<Longrightarrow>
   \<exists>f. (token_type, f) \<in> set specs \<and> f src = Some m"
  by (induction specs) (auto split: option.splits)

lemma first_match_cases:
  assumes "first_match token_specs src = Some (token_type, matched)"
  shows "(token_type = T_STRING \<and> match_string_literal src = Some matched) \<or>
     (token_type = T_VARIABLE \<and> match_variable src = Some matched) \<or>
     (token_type = T_LABEL \<and> match_label src = Some matched) \<or>
     (token_type = T_NEWLINE \<and> matched = [CHR 0x0A] \<and> take (length matched) src = matched) \<or>
     (token_type \<notin> {T_STRING, T_VARIABLE, T_LABEL, T_NEWLINE} \<and> CHR 0x0A \<notin> set matched \<and>
        take (length matched) src = matched)"
proof -
  from first_match_mem [OF assms] obtain f where
    "(token_type, f) \<in> set token_specs" and "f src = Some matched" by blast
  then show ?thesis
    by (auto simp: token_specs_def match_literal_Some)
qed

lemma pattern_match_well_formed:
  assumes "pattern_match src = Some (token_type, matched)"
  shows "well_formed_token \<lparr>tok_type = token_type, tok_value = token_value_of token_type matched,
           tok_line = line, tok_column = column\<rparr>"
  using first_match_cases [OF assms [unfolded pattern_match_def]]
  by (auto simp: well_formed_token_def token_value_of_def match_string_literal_def
        match_variable_def match_label_def butlast_append split: list.splits if_splits)

lemma split_at_quote:
  assumes "dropWhile (\<lambda>x. x \<noteq> CHR 0x22) cs \<noteq> []"
  shows "cs = takeWhile (\<lambda>x. x \<noteq> CHR 0x22) cs @ CHR 0x22 # tl (dropWhile (\<lambda>x. x \<noteq> CHR 0x22) cs)"
proof -
  from assms have "hd (dropWhile (\<lambda>x. x \<noteq> CHR 0x22) cs) = CHR 0x22"
    using hd_dropWhile [of "\<lambda>x. x \<noteq> CHR 0x22" cs] by simp
  with assms have "dropWhile (\<lambda>x. x \<noteq> CHR 0x22) cs
      = CHR 0x22 # tl (dropWhile (\<lambda>x. x \<noteq> CHR 0x22) cs)"
    by (cases "dropWhile (\<lambda>x. x \<noteq> CHR 0x22) cs") simp_all
  then show ?thesis using takeWhile_dropWhile_id [of "\<lambda>x. x \<noteq> CHR 0x22" cs] by simp
qed

lemma pattern_match_prefix:
  assumes "pattern_match src = Some (token_type, matched)"
  shows "\<exists>rest. src = matched @ rest"
proof -
  from first_match_cases [OF assms [unfolded pattern_match_def]]
  consider (s) "match_string_literal src = Some matched" | (v) "match_variable src = Some matched"
    | (l) "match_label src = Some matched" | (t) "take (length matched) src = matched"
    by auto
  then show ?thesis
  proof cases
    case s
    then obtain cs where src: "src = CHR 0x22 # cs"
      and d: "dropWhile (\<lambda>x. x \<noteq> CHR 0x22) cs \<noteq> []"
      and m: "matched = CHR 0x22 # takeWhile (\<lambda>x. x \<noteq> CHR 0x22) cs @ [CHR 0x22]"
      by (auto simp: match_string_literal_def split: list.splits if_splits)
    from split_at_quote [OF d] have "src = matched @ tl (dropWhile (\<lambda>x. x \<noteq> CHR 0x22) cs)"
      using src m by simp
    then show ?thesis ..
  next
    case v
    then obtain cs where src: "src = CHR ''$'' # cs"
      and m: "matched = CHR ''$'' # takeWhile is_ident_char cs"
      by (auto simp: match_variable_def split: list.splits if_splits)
    have "src = matched @ dropWhile is_ident_char cs" using src m by simp
    then show ?thesis ..
  next
    case l
    then have d: "dropWhile is_ident_char src \<noteq> []"
      and h: "hd (dropWhile is_ident_char src) = CHR '':''"
      and m: "matched = takeWhile is_ident_char src @ '':''"
      by (auto simp: match_label_def split: if_splits)
    from d h have "dropWhile is_ident_char src = CHR '':'' # tl (dropWhile is_ident_char src)"
      by (cases "dropWhile is_ident_char src") simp_all
    then have "src = matched @ tl (dropWhile is_ident_char src)"
      using takeWhile_dropWhile_id [of is_ident_char src] m by simp
    then show ?thesis ..
  next
    case t
    then have "src = matched @ drop (length matched) src"
      by (metis append_take_drop_id)
    then show ?thesis ..
  qed
qed

lemma count_token_value:
  assumes "pattern_match src = Some (token_type, matched)"
  shows "count_list (token_value_of token_type matched) (CHR 0x0A) = count_list matched (CHR 0x0A)"
  using first_match_cases [OF assms [unfolded pattern_match_def]]
  by (auto simp: token_value_of_def match_string_literal_def match_label_def butlast_append
        split: list.splits if_splits)

lemma count_skip_comment:
  "count_list (dropWhile (\<lambda>x. x \<noteq> CHR 0x0A) cs) (CHR 0x0A) = count_list cs (CHR 0x0A)"
  by (induction cs) auto

lemma tokenize_loop_invariant:
  "tokenize_loop src line column tokens = Inr out \<Longrightarrow>
   (\<forall>t \<in> set tokens. well_formed_token t) \<Longrightarrow>
   (\<forall>t \<in> set out. well_formed_token t) \<and>
   newlines_in out = newlines_in tokens + count_list src (CHR 0x0A)"
proof (induction src line column tokens rule: tokenize_loop.induct)
  case (1 line column tokens)
  then show ?case by (auto simp: well_formed_token_def newlines_in_def)
next
  case (2 c cs line column tokens)
  show ?case
  proof (cases "c = CHR '' '' \<or> c = CHR 0x09")
    case True
    with 2 show ?thesis by auto
  next
    case blank: False
    show ?thesis
    proof (cases "c = CHR ''#''")
      case True
      with blank 2 show ?thesis by (auto simp: count_skip_comment)
    next
      case False
      with blank "2.prems" obtain token_type matched where
        pm: "pattern_match (c # cs) = Some (token_type, matched)"
        by (auto split: option.splits)
      let ?tok = "\<lparr>tok_type = token_type, tok_value = token_value_of token_type matched,
                    tok_line = line, tok_column = column\<rparr>"
      from pattern_match_prefix [OF pm] obtain rest where r: "c # cs = matched @ rest" ..
      then have dr: "drop (length matched) (c # cs) = rest" by (metis append_eq_conv_conj)
      have wf: "\<forall>t \<in> set (tokens @ [?tok]). well_formed_token t"
        using "2.prems"(2) pattern_match_well_formed [OF pm] by auto
      have ih: "(\<forall>t \<in> set out. well_formed_token t) \<and>
                newlines_in out = newlines_in (tokens @ [?tok])
                  + count_list (drop (length matched) (c # cs)) (CHR 0x0A)"
        using "2.IH"(3) [OF blank False pm refl] "2.prems"(1) blank False pm wf
        by simp
      have "count_list (c # cs) (CHR 0x0A)
              = count_list matched (CHR 0x0A) + count_list rest (CHR 0x0A)"
        by (simp only: r count_list_append)
      with ih dr count_token_value [OF pm] show ?thesis
        by (simp add: newlines_in_def)
    qed
  qed
qed

text \<open>
  What holds of the tokens of every source that tokenizes: a \<^verbatim>\<open>NEWLINE\<close> token is
  one newline, a token that is neither a \<^verbatim>\<open>STRING\<close> nor a \<^verbatim>\<open>NEWLINE\<close> has no newline
  in its value, the value of a \<^verbatim>\<open>STRING\<close> has no quote, and the newlines in the token
  values are as many as those of the source. So the \<^verbatim>\<open>STRING\<close> tokens are the only ones
  that can run over a newline.
\<close>

lemma tokens_and_newlines:
  assumes "tokenize source = Inr tokens"
  shows "(\<forall>t \<in> set tokens. well_formed_token t) \<and>
         newlines_in tokens = count_list source (CHR 0x0A)"
  using tokenize_loop_invariant [OF assms [unfolded tokenize_def]]
  by (simp add: newlines_in_def)

text \<open>
  C8: no token is to run over a newline, so that a string literal ends on its line.
  The string pattern of the code leaves out the quote only: the source of the three
  lines quote \<open>a\<close>, \<open>b\<close> quote, \<^verbatim>\<open>exit\<close> is tokenized without an error, its first token is
  one \<^verbatim>\<open>STRING\<close> whose value holds the newline, and since the line counter grows at
  \<^verbatim>\<open>NEWLINE\<close> tokens only, the \<^verbatim>\<open>exit\<close> of the third line is given line 2.
\<close>

theorem string_literal_spans_newline:
  "tokenize ([CHR 0x22, CHR ''a'', CHR 0x0A, CHR ''b'', CHR 0x22, CHR 0x0A] @ ''exit'') =
     Inr [\<lparr>tok_type = T_STRING, tok_value = [CHR ''a'', CHR 0x0A, CHR ''b''],
           tok_line = 1, tok_column = 1\<rparr>,
          \<lparr>tok_type = T_NEWLINE, tok_value = [CHR 0x0A], tok_line = 1, tok_column = 4\<rparr>,
          \<lparr>tok_type = T_EXIT, tok_value = ''exit'', tok_line = 2, tok_column = 1\<rparr>,
          \<lparr>tok_type = T_EOF, tok_value = [], tok_line = 2, tok_column = 5\<rparr>]"
  by (simp add: tokenize_def pattern_match_def token_specs_def match_literal_def
      match_string_literal_def match_variable_def match_label_def token_value_of_def
      is_ident_start_def is_ident_char_def)

end
